theory Spec2Isabelle
  imports Main
begin

section \<open>Text\<close>

text \<open>
  A Python \<^verbatim>\<open>str\<close> is a sequence of Unicode code points, so text is a list of
  naturals. \<open>u\<close> turns an Isabelle string literal into such a text.
\<close>

type_synonym ustr = "nat list"

definition u :: "string \<Rightarrow> ustr" where
  "u s = map of_char s"

text \<open>
  The classes \<^verbatim>\<open>\w\<close> and \<^verbatim>\<open>\s\<close> of the \<^verbatim>\<open>re\<close> module on the ASCII range:
  letters, digits and the underscore; tab, line feed, vertical tab, form feed,
  carriage return, the four separators 0x1C..0x1F and the space.
\<close>

definition ascii_word :: "nat \<Rightarrow> bool" where
  "ascii_word c \<longleftrightarrow>
     (48 \<le> c \<and> c \<le> 57) \<or> (65 \<le> c \<and> c \<le> 90) \<or> (97 \<le> c \<and> c \<le> 122) \<or> c = 95"

definition ascii_space :: "nat \<Rightarrow> bool" where
  "ascii_space c \<longleftrightarrow> (9 \<le> c \<and> c \<le> 13) \<or> (28 \<le> c \<and> c \<le> 32)"

text \<open>
  What the program takes from the Python library and not from its own source: the
  Unicode tables (NFKD normalisation, the word and space classes beyond ASCII), the
  YAML loader, the date parser and formatter, the MD5 digest, the iteration order
  of a \<^verbatim>\<open>set\<close> and \<^verbatim>\<open>repr\<close>. They are fields of one record that every modelled
  function receives.

  A metadata value is a scalar or a list of scalars. A scalar is a text, or any other
  object (a number, a date, a truth value, \<^verbatim>\<open>None\<close>), of which the program uses what
  \<^verbatim>\<open>str\<close> gives for it and whether it counts as true.
\<close>

datatype yaml_error = YAMLError

datatype scalar =
    SStr ustr
  | SOther ustr bool

datatype yval =
    YScalar scalar
  | YList "scalar list"

type_synonym metadata = "(ustr \<times> yval) list"

record 't pylib =
  normalize_NFKD :: "ustr \<Rightarrow> ustr"
  uni_word :: "nat \<Rightarrow> bool"
  uni_space :: "nat \<Rightarrow> bool"
  safe_load :: "ustr \<Rightarrow> yaml_error + metadata option"
  fromisoformat :: "ustr \<Rightarrow> 't option"
  strftime_stamp :: "'t \<Rightarrow> ustr"
  md5_hex :: "ustr \<Rightarrow> ustr"
  list_of_set :: "ustr list \<Rightarrow> ustr list"
  repr_scalar :: "scalar \<Rightarrow> ustr"

definition re_word :: "('t, 'x) pylib_scheme \<Rightarrow> nat \<Rightarrow> bool" where
  "re_word lib c = (if c < 128 then ascii_word c else uni_word lib c)"

definition re_space :: "('t, 'x) pylib_scheme \<Rightarrow> nat \<Rightarrow> bool" where
  "re_space lib c = (if c < 128 then ascii_space c else uni_space lib c)"

section \<open>slugify\<close>

text \<open>
  \<^verbatim>\<open>text.encode('ascii', 'ignore').decode('ascii')\<close> drops every code point
  from 128 on.
\<close>

definition encode_ascii_ignore :: "ustr \<Rightarrow> ustr" where
  "encode_ascii_ignore s = filter (\<lambda>c. c < 128) s"

text \<open>\<^verbatim>\<open>str.lower\<close>, which \<open>slugify\<close> applies to ASCII text only.\<close>

definition lower_char :: "nat \<Rightarrow> nat" where
  "lower_char c = (if 65 \<le> c \<and> c \<le> 90 then c + 32 else c)"

definition lower :: "ustr \<Rightarrow> ustr" where
  "lower s = map lower_char s"

text \<open>\<^verbatim>\<open>re.sub(r'[^\w\s-]', '', text)\<close>: only word, space and hyphen characters stay.\<close>

definition drop_special :: "('t, 'x) pylib_scheme \<Rightarrow> ustr \<Rightarrow> ustr" where
  "drop_special lib s = filter (\<lambda>c. re_word lib c \<or> re_space lib c \<or> c = 45) s"

text \<open>
  \<^verbatim>\<open>re.sub(r'[-\s]+', '-', text)\<close>: every maximal run of hyphens and spaces
  becomes one hyphen.
\<close>

definition is_sep :: "('t, 'x) pylib_scheme \<Rightarrow> nat \<Rightarrow> bool" where
  "is_sep lib c \<longleftrightarrow> c = 45 \<or> re_space lib c"

function hyphenate :: "('t, 'x) pylib_scheme \<Rightarrow> ustr \<Rightarrow> ustr" where
  "hyphenate lib [] = []"
| "hyphenate lib (c # cs) =
     (if is_sep lib c then 45 # hyphenate lib (dropWhile (is_sep lib) cs)
      else c # hyphenate lib cs)"
  by pat_completeness auto
termination
  by (relation "measure (\<lambda>(lib, s). length s)")
     (auto simp: less_Suc_eq_le length_dropWhile_le)

text \<open>\<^verbatim>\<open>text.strip('-')\<close>.\<close>

definition strip_hyphens :: "ustr \<Rightarrow> ustr" where
  "strip_hyphens s = rev (dropWhile (\<lambda>c. c = 45) (rev (dropWhile (\<lambda>c. c = 45) s)))"

text \<open>
  The argument of \<open>slugify\<close> is \<^verbatim>\<open>None\<close> or a text; \<^verbatim>\<open>not text\<close> holds for
  \<^verbatim>\<open>None\<close> and for the empty text.
\<close>

definition slugify :: "('t, 'x) pylib_scheme \<Rightarrow> ustr option \<Rightarrow> ustr" where
  "slugify lib text =
     (case text of
        None \<Rightarrow> u ''untitled''
      | Some t \<Rightarrow>
          if t = [] then u ''untitled''
          else
            let t1 = normalize_NFKD lib t;
                t2 = encode_ascii_ignore t1;
                t3 = drop_special lib (lower t2);
                t4 = hyphenate lib t3;
                result = strip_hyphens t4
            in if result = [] then u ''untitled'' else result)"


section \<open>Paths\<close>

text \<open>
  A \<^verbatim>\<open>pathlib\<close> path: whether it is absolute, and its components below the root.
  \<open>path_of_str\<close> is the constructor \<^verbatim>\<open>Path(s)\<close> on POSIX: the text is split at
  slashes, empty and \<^verbatim>\<open>.\<close> components are dropped.
\<close>

datatype path = Path bool "ustr list"

fun is_absolute :: "path \<Rightarrow> bool" where
  "is_absolute (Path a ps) = a"

fun parts :: "path \<Rightarrow> ustr list" where
  "parts (Path a ps) = ps"

fun split_on :: "nat \<Rightarrow> ustr \<Rightarrow> ustr list" where
  "split_on sep [] = [[]]"
| "split_on sep (c # cs) =
     (if c = sep then [] # split_on sep cs
      else (case split_on sep cs of [] \<Rightarrow> [[c]] | w # ws \<Rightarrow> (c # w) # ws))"

definition path_of_str :: "ustr \<Rightarrow> path" where
  "path_of_str s =
     Path (case s of [] \<Rightarrow> False | c # _ \<Rightarrow> c = 47)
          (filter (\<lambda>p. p \<noteq> [] \<and> p \<noteq> [46]) (split_on 47 s))"

text \<open>\<^verbatim>\<open>p.name\<close>: the last component, empty when there is none.\<close>

definition name_of :: "path \<Rightarrow> ustr" where
  "name_of p = (case parts p of [] \<Rightarrow> [] | _ \<Rightarrow> last (parts p))"

text \<open>
  \<^verbatim>\<open>name.rfind('.')\<close>, and \<^verbatim>\<open>p.stem\<close> and \<^verbatim>\<open>p.suffix\<close> from it: the name is cut
  at its last dot when that dot is neither the first nor the last character.
\<close>

definition rfind :: "nat \<Rightarrow> ustr \<Rightarrow> nat option" where
  "rfind c s =
     (if c \<in> set s then Some (length s - 1 - length (takeWhile (\<lambda>x. x \<noteq> c) (rev s)))
      else None)"

definition stem :: "path \<Rightarrow> ustr" where
  "stem p =
     (let name = name_of p in
      case rfind 46 name of
        None \<Rightarrow> name
      | Some i \<Rightarrow> if 0 < i \<and> i < length name - 1 then take i name else name)"


text \<open>\<^verbatim>\<open>str(p)\<close>.\<close>

fun join :: "ustr \<Rightarrow> ustr list \<Rightarrow> ustr" where
  "join sep [] = []"
| "join sep [x] = x"
| "join sep (x # y # ys) = x @ sep @ join sep (y # ys)"


text \<open>
  \<^verbatim>\<open>a / b\<close>: an absolute right operand replaces the left one. \<^verbatim>\<open>p.relative_to(q)\<close>
  raises \<^verbatim>\<open>ValueError\<close> (here \<open>None\<close>) unless \<open>q\<close> is a prefix of \<open>p\<close>.
  \<^verbatim>\<open>p.parent\<close> drops the last component.
\<close>

definition path_join :: "path \<Rightarrow> path \<Rightarrow> path" where
  "path_join a b =
     (if is_absolute b then b else Path (is_absolute a) (parts a @ parts b))"

definition relative_to :: "path \<Rightarrow> path \<Rightarrow> path option" where
  "relative_to p q =
     (if is_absolute p = is_absolute q \<and> take (length (parts q)) (parts p) = parts q
      then Some (Path False (drop (length (parts q)) (parts p)))
      else None)"

definition parent :: "path \<Rightarrow> path" where
  "parent p = Path (is_absolute p) (butlast (parts p))"

section \<open>The converter\<close>

text \<open>
  The fields of \<^verbatim>\<open>ObsidianToDenoteConverter\<close>. The two mappings are dictionaries in
  insertion order: association lists with one entry for a key.
\<close>

record converter =
  output_format :: ustr
  preserve_links :: bool
  assets_handling :: ustr
  file_mapping :: "(path \<times> ustr) list"
  asset_mapping :: "(ustr \<times> ustr) list"
  assets_dir :: ustr

text \<open>\<^verbatim>\<open>d[k] = v\<close> on a dictionary in insertion order.\<close>

fun dict_set :: "('k \<times> 'v) list \<Rightarrow> 'k \<Rightarrow> 'v \<Rightarrow> ('k \<times> 'v) list" where
  "dict_set [] k v = [(k, v)]"
| "dict_set ((k', v') # kvs) k v =
     (if k' = k then (k, v) # kvs else (k', v') # dict_set kvs k v)"

section \<open>extract\_yaml\_frontmatter\<close>

definition startswith :: "ustr \<Rightarrow> ustr \<Rightarrow> bool" where
  "startswith s p \<longleftrightarrow> take (length p) s = p"

text \<open>
  \<^verbatim>\<open>s.index(sub, start)\<close>: the first position from \<open>start\<close> on where \<open>sub\<close> occurs;
  \<open>None\<close> is the \<^verbatim>\<open>ValueError\<close>.
\<close>

fun find_sub :: "ustr \<Rightarrow> ustr \<Rightarrow> nat option" where
  "find_sub sub [] = (if sub = [] then Some 0 else None)"
| "find_sub sub (c # cs) =
     (if startswith (c # cs) sub then Some 0 else map_option Suc (find_sub sub cs))"

definition index_from :: "ustr \<Rightarrow> ustr \<Rightarrow> nat \<Rightarrow> nat option" where
  "index_from sub s start = map_option (\<lambda>i. i + start) (find_sub sub (drop start s))"

text \<open>
  The loaded document is \<^verbatim>\<open>None\<close> (an empty block) or a mapping. Both exceptions,
  the missing closing delimiter and the loader's, leave the initial values.
\<close>

definition extract_yaml_frontmatter ::
  "('t, 'x) pylib_scheme \<Rightarrow> ustr \<Rightarrow> metadata option \<times> ustr" where
  "extract_yaml_frontmatter lib content =
     (if startswith content (u ''---'' @ [10]) then
        (case index_from (10 # u ''---'' @ [10]) content 4 of
           None \<Rightarrow> (Some [], content)
         | Some end_idx \<Rightarrow>
             (case safe_load lib (take (end_idx - 4) (drop 4 content)) of
                Inl e \<Rightarrow> (Some [], content)
              | Inr metadata \<Rightarrow> (metadata, drop (end_idx + 5) content)))
      else (Some [], content))"

section \<open>generate\_denote\_filename\<close>

datatype error = OSError | ValueError | TypeError | AttributeError

definition py_none :: scalar where
  "py_none = SOther (u ''None'') False"

fun truthy_scalar :: "scalar \<Rightarrow> bool" where
  "truthy_scalar (SStr s) = (s \<noteq> [])"
| "truthy_scalar (SOther r b) = b"

fun truthy :: "yval \<Rightarrow> bool" where
  "truthy (YScalar x) = truthy_scalar x"
| "truthy (YList xs) = (xs \<noteq> [])"

fun str_scalar :: "scalar \<Rightarrow> ustr" where
  "str_scalar (SStr s) = s"
| "str_scalar (SOther r b) = r"

fun py_str :: "('t, 'x) pylib_scheme \<Rightarrow> yval \<Rightarrow> ustr" where
  "py_str lib (YScalar x) = str_scalar x"
| "py_str lib (YList xs) = u ''['' @ join (u '', '') (map (repr_scalar lib) xs) @ u '']''"

text \<open>
  The pattern \<^verbatim>\<open>^#\s+(.+)$\<close> with \<^verbatim>\<open>re.MULTILINE\<close>, tried on the text after a
  \<^verbatim>\<open>#\<close> that starts a line. The spaces (line feeds among them) are taken greedily.
  When a character follows them, the group runs from it to the end of its line. When
  they reach the end of the text, the matcher gives spaces back: the group is the last
  space that is no line feed, the first one apart.
\<close>

definition heading_at :: "('t, 'x) pylib_scheme \<Rightarrow> ustr \<Rightarrow> ustr option" where
  "heading_at lib s =
     (let ws = takeWhile (re_space lib) s; rest = dropWhile (re_space lib) s in
      if ws = [] then None
      else if rest \<noteq> [] then Some (takeWhile (\<lambda>c. c \<noteq> 10) rest)
      else (case filter (\<lambda>c. c \<noteq> 10) (tl ws) of
              [] \<Rightarrow> None
            | c # cs \<Rightarrow> Some [last (c # cs)]))"

text \<open>\<^verbatim>\<open>re.search\<close>: the first line start, from the left, where the pattern matches.\<close>

fun search_heading :: "('t, 'x) pylib_scheme \<Rightarrow> bool \<Rightarrow> ustr \<Rightarrow> ustr option" where
  "search_heading lib line_start [] = None"
| "search_heading lib line_start (c # cs) =
     (if line_start \<and> c = 35 then
        (case heading_at lib cs of
           Some h \<Rightarrow> Some h
         | None \<Rightarrow> search_heading lib (c = 10) cs)
      else search_heading lib (c = 10) cs)"

text \<open>\<^verbatim>\<open>re.findall(r'#(\w+)', content)\<close>.\<close>

function findall_tags :: "('t, 'x) pylib_scheme \<Rightarrow> ustr \<Rightarrow> ustr list" where
  "findall_tags lib [] = []"
| "findall_tags lib (c # cs) =
     (if c = 35 \<and> takeWhile (re_word lib) cs \<noteq> []
      then takeWhile (re_word lib) cs # findall_tags lib (dropWhile (re_word lib) cs)
      else findall_tags lib cs)"
  by pat_completeness auto
termination
  by (relation "measure (\<lambda>(lib, s). length s)")
     (auto simp: less_Suc_eq_le length_dropWhile_le)

text \<open>
  The metadata argument is \<^verbatim>\<open>None\<close> or a mapping; \<^verbatim>\<open>if metadata\<close> holds for a
  mapping with an entry.
\<close>

definition meta_get :: "metadata option \<Rightarrow> ustr \<Rightarrow> yval option" where
  "meta_get metadata key = (case metadata of None \<Rightarrow> None | Some m \<Rightarrow> map_of m key)"

definition created_time_of ::
  "('t, 'x) pylib_scheme \<Rightarrow> 't \<Rightarrow> metadata option \<Rightarrow> 't" where
  "created_time_of lib file_mtime metadata =
     (case meta_get metadata (u ''created'') of
        None \<Rightarrow> file_mtime
      | Some v \<Rightarrow>
          (case fromisoformat lib (py_str lib v) of
             None \<Rightarrow> file_mtime
           | Some t \<Rightarrow> t))"

definition metadata_title :: "('t, 'x) pylib_scheme \<Rightarrow> ustr \<Rightarrow> metadata option \<Rightarrow> ustr" where
  "metadata_title lib file_stem metadata =
     (case meta_get metadata (u ''title'') of
        Some v \<Rightarrow> if truthy v then py_str lib v
          else (case meta_get metadata (u ''aliases'') of
                  Some (YList (a # as)) \<Rightarrow> str_scalar a
                | Some (YScalar (SStr s)) \<Rightarrow> if s \<noteq> [] then s else file_stem
                | _ \<Rightarrow> file_stem)
      | None \<Rightarrow>
          (case meta_get metadata (u ''aliases'') of
             Some (YList (a # as)) \<Rightarrow> str_scalar a
           | Some (YScalar (SStr s)) \<Rightarrow> if s \<noteq> [] then s else file_stem
           | _ \<Rightarrow> file_stem))"

definition title_of ::
  "('t, 'x) pylib_scheme \<Rightarrow> path \<Rightarrow> metadata option \<Rightarrow> ustr \<Rightarrow> ustr" where
  "title_of lib original_path metadata content =
     (let title = metadata_title lib (stem original_path) metadata;
          title = (if title = stem original_path \<and> content \<noteq> [] then
                     (case search_heading lib True content of
                        Some h \<Rightarrow> h
                      | None \<Rightarrow> title)
                   else title)
      in if title = [] then u ''untitled'' else title)"

definition metadata_tags :: "metadata option \<Rightarrow> ustr list" where
  "metadata_tags metadata =
     (case meta_get metadata (u ''tags'') of
        Some (YList xs) \<Rightarrow> map str_scalar (filter truthy_scalar xs)
      | Some (YScalar (SStr s)) \<Rightarrow> [s]
      | _ \<Rightarrow> [])"

definition tags_of ::
  "('t, 'x) pylib_scheme \<Rightarrow> metadata option \<Rightarrow> ustr \<Rightarrow> ustr list" where
  "tags_of lib metadata content =
     list_of_set lib
       (filter (\<lambda>tag. tag \<noteq> []) (metadata_tags metadata @ findall_tags lib content))"

text \<open>
  \<^verbatim>\<open>os.stat\<close> raises for a path that is not there: \<open>file_mtime\<close> is \<open>None\<close> then.
  The result is the file name, the title, the tags and the creation time.
\<close>

definition generate_denote_filename ::
  "('t, 'x) pylib_scheme \<Rightarrow> ('y) converter_scheme \<Rightarrow> 't option \<Rightarrow> path \<Rightarrow>
   metadata option \<Rightarrow> ustr \<Rightarrow> error + (ustr \<times> ustr \<times> ustr list \<times> 't)" where
  "generate_denote_filename lib conv file_mtime original_path metadata content =
     (case file_mtime of
        None \<Rightarrow> Inl OSError
      | Some mt \<Rightarrow>
          (let created_time = created_time_of lib mt metadata;
               timestamp = strftime_stamp lib created_time;
               title = title_of lib original_path metadata content;
               title_slug = slugify lib (Some title);
               tags = tags_of lib metadata content;
               tags_str = (if tags \<noteq> []
                           then u ''__'' @ join (u ''_'') (map (\<lambda>tag. slugify lib (Some tag)) tags)
                           else []);
               extension = (if output_format conv = u ''org'' then u ''.org'' else u ''.md'');
               filename = timestamp @ u ''--'' @ title_slug @ tags_str @ extension
           in Inr (filename, title, tags, created_time)))"

section \<open>convert\_links\<close>

text \<open>
  The pattern \<^verbatim>\<open>\[\[([^\]]+)\]\]\<close> at the start of a text: two opening brackets, the
  longest run of characters other than the closing bracket, which must not be empty,
  and two closing brackets. The result is the group and the text after the match.
\<close>

definition match_wiki :: "ustr \<Rightarrow> (ustr \<times> ustr) option" where
  "match_wiki s =
     (case s of
        a # b # r \<Rightarrow>
          if a = 91 \<and> b = 91 then
            (let g = takeWhile (\<lambda>c. c \<noteq> 93) r; t = dropWhile (\<lambda>c. c \<noteq> 93) r in
             if g \<noteq> [] \<and> startswith t [93, 93] then Some (g, drop 2 t) else None)
          else None
      | _ \<Rightarrow> None)"

lemma match_wiki_shorter [termination_simp]:
  "match_wiki s = Some (g, r) \<Longrightarrow> length r < length s"
proof -
  assume m: "match_wiki s = Some (g, r)"
  then obtain a b t where s: "s = a # b # t"
    by (cases s rule: list.exhaust [case_product list.exhaust])
       (auto simp: match_wiki_def split: list.splits)
  with m have r: "r = drop 2 (dropWhile (\<lambda>c. c \<noteq> 93) t)"
    by (auto simp: match_wiki_def Let_def split: if_splits)
  have "length (dropWhile (\<lambda>c. c \<noteq> 93) t) \<le> length t"
    by (rule length_dropWhile_le)
  with r have "length r \<le> length t" by simp
  with s show ?thesis by simp
qed

text \<open>
  \<^verbatim>\<open>re.sub(pattern, repl, content)\<close> for the wiki-link pattern: the leftmost match is
  replaced and the scan goes on after it; a character where no match starts is kept.
\<close>

function sub_wiki :: "(ustr \<Rightarrow> ustr) \<Rightarrow> ustr \<Rightarrow> ustr" where
  "sub_wiki f [] = []"
| "sub_wiki f (c # cs) =
     (case match_wiki (c # cs) of
        Some (g, r) \<Rightarrow> f g @ sub_wiki f r
      | None \<Rightarrow> c # sub_wiki f cs)"
  by pat_completeness auto
termination
  by (relation "measure (\<lambda>(f, s). length s)") (auto dest: match_wiki_shorter)

text \<open>The same for \<^verbatim>\<open>!\[\[([^\]]+)\]\]\<close>, with the replacement \<^verbatim>\<open>[[file:\1]]\<close>.\<close>

definition match_embed :: "ustr \<Rightarrow> (ustr \<times> ustr) option" where
  "match_embed s = (case s of [] \<Rightarrow> None | c # cs \<Rightarrow> if c = 33 then match_wiki cs else None)"

function sub_embed :: "ustr \<Rightarrow> ustr" where
  "sub_embed [] = []"
| "sub_embed (c # cs) =
     (case match_embed (c # cs) of
        Some (g, r) \<Rightarrow> u ''[[file:'' @ g @ u '']]'' @ sub_embed r
      | None \<Rightarrow> c # sub_embed cs)"
  by pat_completeness auto
termination
  by (relation "measure length")
     (auto simp: match_embed_def split: if_splits dest!: match_wiki_shorter)

text \<open>
  \<^verbatim>\<open>replace_link\<close>: the group is split at its first bar into link and description,
  the link is looked up among the stems of the converted files, first entry first.
\<close>

definition split_link :: "ustr \<Rightarrow> ustr \<times> ustr" where
  "split_link link_text =
     (if 124 \<in> set link_text
      then (takeWhile (\<lambda>c. c \<noteq> 124) link_text, tl (dropWhile (\<lambda>c. c \<noteq> 124) link_text))
      else (link_text, link_text))"

fun resolve_link :: "(path \<times> ustr) list \<Rightarrow> ustr \<Rightarrow> ustr" where
  "resolve_link [] link = link"
| "resolve_link ((old_name, new_name) # rest) link =
     (if stem old_name = link then stem (path_of_str new_name) else resolve_link rest link)"

definition replace_link_org :: "(path \<times> ustr) list \<Rightarrow> ustr \<Rightarrow> ustr" where
  "replace_link_org fm link_text =
     (case split_link link_text of
        (link, desc) \<Rightarrow>
          u ''[[file:'' @ resolve_link fm link @ u ''.org]['' @ desc @ u '']]'')"

definition replace_link_md :: "(path \<times> ustr) list \<Rightarrow> ustr \<Rightarrow> ustr" where
  "replace_link_md fm link_text =
     (case split_link link_text of
        (link, desc) \<Rightarrow>
          u ''['' @ desc @ u '']('' @ resolve_link fm link @ u ''.md)'')"

definition convert_links :: "('y) converter_scheme \<Rightarrow> ustr \<Rightarrow> bool \<Rightarrow> ustr" where
  "convert_links conv content is_org =
     (if is_org then
        sub_embed (sub_wiki (replace_link_org (file_mapping conv)) content)
      else if \<not> preserve_links conv then
        sub_wiki (replace_link_md (file_mapping conv)) content
      else content)"

section \<open>The file system\<close>

text \<open>
  What the program sees of the file system and what it does to it: the text of a file
  (\<^verbatim>\<open>open(p).read()\<close>, which may raise), its modification time (\<^verbatim>\<open>os.stat\<close>), the
  result of \<^verbatim>\<open>glob('**/*.md')\<close>, whether a directory can be made, a file copied or
  written, the clock, and the copies and writes done so far, in order.
\<close>

record 't filesystem =
  read_text :: "path \<Rightarrow> error + ustr"
  st_mtime :: "path \<Rightarrow> 't option"
  glob_md :: "path \<Rightarrow> path list"
  can_mkdir :: "path \<Rightarrow> bool"
  can_copy :: "path \<Rightarrow> path \<Rightarrow> bool"
  can_write :: "path \<Rightarrow> bool"
  clock :: 't
  copied :: "(path \<times> path) list"
  written :: "(path \<times> ustr) list"


text \<open>\<^verbatim>\<open>with open(p, 'w') as f: f.write(s)\<close>.\<close>

definition write_text :: "'t filesystem \<Rightarrow> path \<Rightarrow> ustr \<Rightarrow> error + 't filesystem" where
  "write_text fs p s =
     (if can_write fs p then
        Inr (fs\<lparr>read_text := (read_text fs)(p := Inr s),
                st_mtime := (st_mtime fs)(p := Some (clock fs)),
                written := written fs @ [(p, s)]\<rparr>)
      else Inl OSError)"

section \<open>copy\_asset\<close>



section \<open>convert\_file\<close>

text \<open>
  Two parts of the conversion are parameters: the scan of the body for asset references
  that \<^verbatim>\<open>process_assets\<close> does in its \<^verbatim>\<open>copy\<close> and \<^verbatim>\<open>link\<close> modes (it may raise, and
  it changes the asset mapping and the file system), and the lines that
  \<^verbatim>\<open>convert_to_org\<close> builds from the body, the metadata, the title and the tags before
  it joins them and converts the links. The date format of the Markdown header is a
  parameter as well.
\<close>

record 't env =
  scan_assets :: "converter \<Rightarrow> 't filesystem \<Rightarrow> ustr \<Rightarrow> path \<Rightarrow> path \<Rightarrow> bool \<Rightarrow>
                  (error + ustr) \<times> converter \<times> 't filesystem"
  org_lines :: "ustr \<Rightarrow> metadata option \<Rightarrow> ustr \<Rightarrow> ustr list \<Rightarrow> ustr list"
  strftime_date :: "'t \<Rightarrow> ustr"

definition process_assets ::
  "'t env \<Rightarrow> converter \<Rightarrow> 't filesystem \<Rightarrow> ustr \<Rightarrow> path \<Rightarrow> path \<Rightarrow> bool \<Rightarrow>
   (error + ustr) \<times> converter \<times> 't filesystem" where
  "process_assets env conv fs content source_dir output_dir is_org =
     (if assets_handling conv = u ''ignore'' then (Inr content, conv, fs)
      else scan_assets env conv fs content source_dir output_dir is_org)"

definition convert_to_org ::
  "'t env \<Rightarrow> converter \<Rightarrow> ustr \<Rightarrow> metadata option \<Rightarrow> ustr \<Rightarrow> ustr list \<Rightarrow> ustr" where
  "convert_to_org env conv content metadata title tags =
     convert_links conv (join [10] (org_lines env content metadata title tags)) True"

definition markdown_header :: "('t, 'x) pylib_scheme \<Rightarrow> 't env \<Rightarrow> ustr \<Rightarrow> ustr list \<Rightarrow> 't \<Rightarrow> ustr" where
  "markdown_header lib env title tags created_time =
     join [10]
       [u ''---'',
        u ''title: '' @ title,
        u ''date: '' @ strftime_date env created_time,
        u ''tags: '' @ join (u '', '') tags,
        u ''identifier: '' @ strftime_stamp lib created_time,
        u ''---'',
        []]"

text \<open>
  The output path and the write. \<^verbatim>\<open>mkdir(parents=True, exist_ok=True)\<close> and the
  write may raise; the file mapping has its new entry by then.
\<close>

definition write_output ::
  "'t filesystem \<Rightarrow> path \<Rightarrow> path option \<Rightarrow> bool \<Rightarrow> ustr \<Rightarrow> ustr \<Rightarrow>
   error + (path \<times> 't filesystem)" where
  "write_output fs output_dir relative_path preserve_structure denote_filename converted_content =
     (case (if preserve_structure then relative_path else None) of
        Some rel \<Rightarrow>
          (let output_subdir = path_join output_dir (parent rel) in
           if \<not> can_mkdir fs output_subdir then Inl OSError
           else (let output_path = path_join output_subdir (path_of_str denote_filename) in
                 case write_text fs output_path converted_content of
                   Inl e \<Rightarrow> Inl e
                 | Inr fs' \<Rightarrow> Inr (output_path, fs')))
      | None \<Rightarrow>
          (let output_path = path_join output_dir (path_of_str denote_filename) in
           case write_text fs output_path converted_content of
             Inl e \<Rightarrow> Inl e
           | Inr fs' \<Rightarrow> Inr (output_path, fs')))"

definition convert_file ::
  "('t, 'x) pylib_scheme \<Rightarrow> 't env \<Rightarrow> converter \<Rightarrow> 't filesystem \<Rightarrow> path \<Rightarrow> path \<Rightarrow>
   path option \<Rightarrow> bool \<Rightarrow> (error + (ustr \<times> path)) \<times> converter \<times> 't filesystem" where
  "convert_file lib env conv fs input_path output_dir relative_path preserve_structure =
     (case read_text fs input_path of
        Inl e \<Rightarrow> (Inl e, conv, fs)
      | Inr content \<Rightarrow>
          (case extract_yaml_frontmatter lib content of
             (metadata, remaining_content) \<Rightarrow>
               (case process_assets env conv fs remaining_content (parent input_path) output_dir
                       (output_format conv = u ''org'') of
                  (Inl e, conv1, fs1) \<Rightarrow> (Inl e, conv1, fs1)
                | (Inr remaining_content', conv1, fs1) \<Rightarrow>
                    (case generate_denote_filename lib conv1 (st_mtime fs1 input_path) input_path
                            metadata remaining_content' of
                       Inl e \<Rightarrow> (Inl e, conv1, fs1)
                     | Inr (denote_filename, title, tags, created_time) \<Rightarrow>
                         (let conv2 = conv1\<lparr>file_mapping :=
                                dict_set (file_mapping conv1) input_path denote_filename\<rparr>;
                              converted_content =
                                (if output_format conv2 = u ''org''
                                 then convert_to_org env conv2 remaining_content' metadata title tags
                                 else markdown_header lib env title tags created_time @
                                      convert_links conv2 remaining_content' False)
                          in case write_output fs1 output_dir relative_path preserve_structure
                                    denote_filename converted_content of
                               Inl e \<Rightarrow> (Inl e, conv2, fs1)
                             | Inr (output_path, fs2) \<Rightarrow>
                                 (Inr (denote_filename, output_path), conv2, fs2))))))"

section \<open>convert\_directory\<close>

text \<open>
  With \<^verbatim>\<open>add_folder_tags\<close>, the loop reads the note, parses its front matter and adds
  the folder names to the tags of that metadata. \<^verbatim>\<open>extend\<close> raises on a \<^verbatim>\<open>tags\<close>
  value that is neither a list nor a text.
\<close>

definition folder_tag_metadata ::
  "('t, 'x) pylib_scheme \<Rightarrow> 'f filesystem \<Rightarrow> path \<Rightarrow> path \<Rightarrow> error + metadata" where
  "folder_tag_metadata lib fs md_file relative_path =
     (case read_text fs md_file of
        Inl e \<Rightarrow> Inl e
      | Inr content \<Rightarrow>
          (case extract_yaml_frontmatter lib content of
             (metadata, remaining) \<Rightarrow>
               (let metadata = (case metadata of None \<Rightarrow> [] | Some m \<Rightarrow> m);
                    folder_tags = map (\<lambda>part. SStr (slugify lib (Some part)))
                                      (parts (parent relative_path))
                in case map_of metadata (u ''tags'') of
                     None \<Rightarrow> Inr (dict_set metadata (u ''tags'') (YList folder_tags))
                   | Some (YList xs) \<Rightarrow>
                       Inr (dict_set metadata (u ''tags'') (YList (xs @ folder_tags)))
                   | Some (YScalar (SStr s)) \<Rightarrow>
                       Inr (dict_set metadata (u ''tags'') (YList (SStr s # folder_tags)))
                   | Some (YScalar (SOther r b)) \<Rightarrow> Inl AttributeError)))"

text \<open>What the loop prints for a file: that it is converted, or the error.\<close>

datatype report = Converted path | Failed path error



text \<open>
  The body of the loop, with its \<^verbatim>\<open>try\<close> and \<^verbatim>\<open>except Exception\<close>. The metadata
  with the folder tags is a local variable; \<^verbatim>\<open>convert_file\<close> is called with the
  path and reads the file again. The pair is appended to the list before the
  progress line is printed, and that line calls \<^verbatim>\<open>relative_to\<close>.
\<close>

definition convert_step ::
  "('t, 'x) pylib_scheme \<Rightarrow> 't env \<Rightarrow> path \<Rightarrow> path \<Rightarrow> bool \<Rightarrow> bool \<Rightarrow> path \<Rightarrow>
   (path \<times> path) list \<times> converter \<times> 't filesystem \<Rightarrow>
   ((path \<times> path) list \<times> converter \<times> 't filesystem) \<times> report" where
  "convert_step lib env input_path output_dir preserve_structure add_folder_tags md_file st =
     (case st of (converted_files, conv, fs) \<Rightarrow>
        (case relative_to md_file input_path of
           None \<Rightarrow> (st, Failed md_file ValueError)
         | Some relative_path \<Rightarrow>
             (case (if add_folder_tags \<and> parent relative_path \<noteq> path_of_str (u ''.'')
                    then folder_tag_metadata lib fs md_file relative_path
                    else Inr []) of
                Inl e \<Rightarrow> (st, Failed md_file e)
              | Inr metadata \<Rightarrow>
                  (case convert_file lib env conv fs md_file output_dir (Some relative_path)
                          preserve_structure of
                     (Inl e, conv', fs') \<Rightarrow> ((converted_files, conv', fs'), Failed md_file e)
                   | (Inr (new_filename, output_file_path), conv', fs') \<Rightarrow>
                       (let converted_files' = converted_files @ [(md_file, output_file_path)] in
                        if preserve_structure then
                          (case relative_to output_file_path output_dir of
                             None \<Rightarrow> ((converted_files', conv', fs'), Failed md_file ValueError)
                           | Some shown \<Rightarrow> ((converted_files', conv', fs'), Converted md_file))
                        else ((converted_files', conv', fs'), Converted md_file))))))"

fun convert_loop ::
  "('t, 'x) pylib_scheme \<Rightarrow> 't env \<Rightarrow> path \<Rightarrow> path \<Rightarrow> bool \<Rightarrow> bool \<Rightarrow> path list \<Rightarrow>
   (path \<times> path) list \<times> converter \<times> 't filesystem \<Rightarrow>
   ((path \<times> path) list \<times> converter \<times> 't filesystem) \<times> report list" where
  "convert_loop lib env input_path output_dir preserve_structure add_folder_tags [] st = (st, [])"
| "convert_loop lib env input_path output_dir preserve_structure add_folder_tags (md_file # md_files) st =
     (case convert_step lib env input_path output_dir preserve_structure add_folder_tags md_file st of
        (st', r) \<Rightarrow>
          (case convert_loop lib env input_path output_dir preserve_structure add_folder_tags
                  md_files st' of
             (st'', rs) \<Rightarrow> (st'', r # rs)))"

text \<open>
  The result is the returned list (or the error of the first \<^verbatim>\<open>mkdir\<close>, which is
  outside the \<^verbatim>\<open>try\<close>), the reports in the order printed, the converter and the file
  system.
\<close>

definition convert_directory ::
  "('t, 'x) pylib_scheme \<Rightarrow> 't env \<Rightarrow> converter \<Rightarrow> 't filesystem \<Rightarrow> path \<Rightarrow> path \<Rightarrow> bool \<Rightarrow> bool \<Rightarrow>
   (error + (path \<times> path) list) \<times> report list \<times> converter \<times> 't filesystem" where
  "convert_directory lib env conv fs input_dir output_dir preserve_structure add_folder_tags =
     (if \<not> can_mkdir fs output_dir then (Inl OSError, [], conv, fs)
      else (case convert_loop lib env input_dir output_dir preserve_structure add_folder_tags
                   (glob_md fs input_dir) ([], conv, fs) of
              ((converted_files, conv', fs'), reports) \<Rightarrow>
                (Inr converted_files, reports, conv', fs')))"

section \<open>Predicates used in the statements\<close>

text \<open>
  The characters a slug is made of: lower-case letters, digits, the hyphen and the
  underscore (the underscore is a word character of \<^verbatim>\<open>\w\<close>).
\<close>

definition slug_char :: "nat \<Rightarrow> bool" where
  "slug_char c \<longleftrightarrow> (97 \<le> c \<and> c \<le> 122) \<or> (48 \<le> c \<and> c \<le> 57) \<or> c = 45 \<or> c = 95"

text \<open>The class \<^verbatim>\<open>[a-z0-9-]\<close>, without the underscore.\<close>

definition claimed_slug_char :: "nat \<Rightarrow> bool" where
  "claimed_slug_char c \<longleftrightarrow> (97 \<le> c \<and> c \<le> 122) \<or> (48 \<le> c \<and> c \<le> 57) \<or> c = 45"

text \<open>
  A text is tidy when each separator in it is a single hyphen followed by a
  character that is no separator: the texts that \<open>hyphenate\<close> leaves alone.
\<close>

fun tidy :: "('t, 'x) pylib_scheme \<Rightarrow> ustr \<Rightarrow> bool" where
  "tidy lib [] = True"
| "tidy lib (c # cs) =
     ((is_sep lib c \<longrightarrow> c = 45 \<and> (case cs of [] \<Rightarrow> True | d # _ \<Rightarrow> \<not> is_sep lib d)) \<and>
      tidy lib cs)"

text \<open>
  A library instance for evaluating the functions on ASCII inputs: normalisation is
  the identity there, no character beyond ASCII is a word or space character, the
  loader rejects every document, no date parses, and a set is listed in the order
  of first insertion.
\<close>

definition ascii_lib :: "nat pylib" where
  "ascii_lib =
     \<lparr>normalize_NFKD = (\<lambda>s. s), uni_word = (\<lambda>_. False), uni_space = (\<lambda>_. False),
      safe_load = (\<lambda>_. Inl YAMLError), fromisoformat = (\<lambda>_. None),
      strftime_stamp = (\<lambda>_. u ''20240115T103000''),
      md5_hex = (\<lambda>_. u ''d41d8cd98f00b204e9800998ecf8427e''), list_of_set = remdups,
      repr_scalar = (\<lambda>x. case x of SStr s \<Rightarrow> 39 # s @ [39] | SOther r b \<Rightarrow> r)\<rparr>"

text \<open>
  A note body as a sequence of segments: plain text and wiki-links, a link with its
  target and its optional display text. Plain text holds no two opening brackets in
  a row and does not end with one, so that every \<^verbatim>\<open>[[\<close> of the body opens a link;
  targets hold no bracket and no bar, display texts no bracket.
\<close>

datatype segment = Plain ustr | Wiki ustr "ustr option"

fun plain_ok :: "ustr \<Rightarrow> bool" where
  "plain_ok [] = True"
| "plain_ok [c] = (c \<noteq> 91)"
| "plain_ok (c # d # r) = (\<not> (c = 91 \<and> d = 91) \<and> plain_ok (d # r))"

definition name_ok :: "ustr \<Rightarrow> bool" where
  "name_ok t \<longleftrightarrow> 91 \<notin> set t \<and> 93 \<notin> set t"

fun segment_ok :: "segment \<Rightarrow> bool" where
  "segment_ok (Plain p) = plain_ok p"
| "segment_ok (Wiki t None) = (t \<noteq> [] \<and> name_ok t \<and> 124 \<notin> set t)"
| "segment_ok (Wiki t (Some d)) = (name_ok t \<and> 124 \<notin> set t \<and> name_ok d)"

text \<open>The Obsidian source of a segment, and the org text the claim gives for it.\<close>

fun source_of :: "segment \<Rightarrow> ustr" where
  "source_of (Plain p) = p"
| "source_of (Wiki t None) = u ''[['' @ t @ u '']]''"
| "source_of (Wiki t (Some d)) = u ''[['' @ t @ u ''|'' @ d @ u '']]''"

text \<open>
  The resolved stem in the specification's words: the stem of the file name recorded
  for a note whose original stem is the target, the target itself when there is none.
\<close>

definition resolved_stem :: "(path \<times> ustr) list \<Rightarrow> ustr \<Rightarrow> ustr" where
  "resolved_stem fm target =
     (case filter (\<lambda>(old_name, new_name). stem old_name = target) fm of
        [] \<Rightarrow> target
      | (old_name, new_name) # _ \<Rightarrow> stem (path_of_str new_name))"

fun org_of :: "(path \<times> ustr) list \<Rightarrow> segment \<Rightarrow> ustr" where
  "org_of fm (Plain p) = p"
| "org_of fm (Wiki t d) =
     u ''[[file:'' @ resolved_stem fm t @ u ''.org]['' @ (case d of None \<Rightarrow> t | Some x \<Rightarrow> x) @ u '']]''"

text \<open>The recorded file names have stems without brackets, as Denote names have.\<close>

definition stems_ok :: "(path \<times> ustr) list \<Rightarrow> bool" where
  "stems_ok fm \<longleftrightarrow> list_all (\<lambda>(old_name, new_name). name_ok (stem (path_of_str new_name))) fm"

text \<open>Converters for evaluating the functions: a fresh one, and one that has converted a note.\<close>

definition conv0 :: converter where
  "conv0 =
     \<lparr>output_format = u ''org'', preserve_links = True, assets_handling = u ''copy'',
      file_mapping = [], asset_mapping = [], assets_dir = u ''assets''\<rparr>"

definition conv1 :: converter where
  "conv1 =
     \<lparr>output_format = u ''org'', preserve_links = True, assets_handling = u ''copy'',
      file_mapping =
        [(Path True [u ''vault'', u ''another note.md''], u ''20240115T103000--another-note.org'')],
      asset_mapping = [], assets_dir = u ''assets''\<rparr>"







definition out_dir :: path where
  "out_dir = Path True [u ''out'']"

definition test_note :: path where
  "test_note = Path True [u ''vault'', u ''Test Note.md'']"

definition test_metadata :: metadata where
  "test_metadata =
     [(u ''title'', YScalar (SStr (u ''Test Note''))),
      (u ''tags'', YList [SStr (u ''tag1''), SStr (u ''tag2'')])]"

definition conv_ignore :: converter where
  "conv_ignore = conv0\<lparr>assets_handling := u ''ignore''\<rparr>"


definition vault :: path where
  "vault = Path True [u ''vault'']"

definition project_note :: path where
  "project_note = Path True [u ''vault'', u ''projects'', u ''my-project.md'']"

definition broken_note :: path where
  "broken_note = Path True [u ''vault'', u ''broken.md'']"

definition fs_vault :: "nat filesystem" where
  "fs_vault =
     \<lparr>read_text = (\<lambda>p. if p = project_note then Inr (u ''# My Project'') else Inl OSError),
      st_mtime = (\<lambda>p. if p = project_note then Some 0 else None),
      glob_md = (\<lambda>p. if p = vault then [broken_note, project_note] else []),
      can_mkdir = (\<lambda>p. True), can_copy = (\<lambda>src dst. True), can_write = (\<lambda>p. True),
      clock = 1, copied = [], written = []\<rparr>"

definition fs_projects :: "nat filesystem" where
  "fs_projects = fs_vault\<lparr>glob_md := (\<lambda>p. if p = vault then [project_note] else [])\<rparr>"

section \<open>Properties of slugify\<close>

lemmas slug_eval =
  slugify_def Let_def u_def ascii_lib_def encode_ascii_ignore_def lower_def lower_char_def
  drop_special_def re_word_def re_space_def ascii_word_def ascii_space_def is_sep_def
  strip_hyphens_def

lemma set_hyphenate: "set (hyphenate lib s) \<subseteq> insert 45 {c \<in> set s. \<not> is_sep lib c}"
proof (induction lib s rule: hyphenate.induct)
  case (1 lib)
  then show ?case by simp
next
  case (2 lib c cs)
  show ?case
  proof (cases "is_sep lib c")
    case True
    with 2 have "set (hyphenate lib (dropWhile (is_sep lib) cs))
        \<subseteq> insert 45 {c \<in> set (dropWhile (is_sep lib) cs). \<not> is_sep lib c}"
      by simp
    moreover have "set (dropWhile (is_sep lib) cs) \<subseteq> set cs"
      by (auto dest: set_dropWhileD)
    ultimately show ?thesis using True by auto
  next
    case False
    with 2 show ?thesis by auto
  qed
qed

lemma set_strip_hyphens: "set (strip_hyphens s) \<subseteq> set s"
  unfolding strip_hyphens_def by (auto dest!: set_dropWhileD)

lemma untitled_chars: "\<forall>c\<in>set (u ''untitled''). slug_char c"
  by (simp add: u_def slug_char_def)

lemma kept_chars:
  assumes "c \<in> set (drop_special lib (lower (encode_ascii_ignore s)))" "\<not> is_sep lib c"
  shows "slug_char c"
proof -
  from assms(1) obtain d where d: "d < 128" "c = lower_char d"
      "re_word lib c \<or> re_space lib c \<or> c = 45"
    by (auto simp: drop_special_def lower_def encode_ascii_ignore_def)
  then have "c < 128" by (auto simp: lower_char_def)
  with d assms(2) have "ascii_word c" by (auto simp: is_sep_def re_word_def re_space_def)
  with d(2) show ?thesis
    by (auto simp: ascii_word_def slug_char_def lower_char_def split: if_splits)
qed

lemma slugify_chars: "\<forall>c\<in>set (slugify lib inp). slug_char c"
proof (cases inp)
  case None
  then show ?thesis using untitled_chars by (simp add: slugify_def)
next
  case (Some t)
  let ?p = "drop_special lib (lower (encode_ascii_ignore (normalize_NFKD lib t)))"
  have "\<forall>c\<in>set (strip_hyphens (hyphenate lib ?p)). slug_char c"
  proof
    fix c assume "c \<in> set (strip_hyphens (hyphenate lib ?p))"
    then have "c \<in> set (hyphenate lib ?p)" using set_strip_hyphens by blast
    then have "c = 45 \<or> (c \<in> set ?p \<and> \<not> is_sep lib c)" using set_hyphenate by blast
    then show "slug_char c" using kept_chars by (auto simp: slug_char_def)
  qed
  with Some show ?thesis using untitled_chars by (simp add: slugify_def Let_def)
qed

lemma slugify_nonempty: "slugify lib inp \<noteq> []"
  by (auto simp: slugify_def Let_def u_def split: option.splits)

text \<open>
  C1, as the code has it. For every input, absent and empty included, and whatever
  the Unicode tables are, \<open>slugify\<close> returns a non-empty text whose characters are
  lower-case ASCII letters, digits, hyphens or underscores, and for an absent or
  empty input it returns \<open>untitled\<close>. The underscore is the difference to the
  class \<^verbatim>\<open>[a-z0-9-]\<close>.
\<close>

theorem slugify_total:
  "slugify lib inp \<noteq> [] \<and>
   (\<forall>c\<in>set (slugify lib inp). slug_char c \<and> c < 128) \<and>
   slugify lib None = u ''untitled'' \<and>
   slugify lib (Some []) = u ''untitled''"
proof -
  have "\<forall>c\<in>set (slugify lib inp). slug_char c \<and> c < 128"
    using slugify_chars [of lib inp] by (auto simp: slug_char_def)
  then show ?thesis
    using slugify_nonempty [of lib inp] by (simp add: slugify_def)
qed

theorem slugify_total_witness:
  "slugify ascii_lib (Some (u ''Hello World'')) = u ''hello-world'' \<and>
   slug_char (hd (slugify ascii_lib (Some (u ''Hello World'')))) \<and>
   slugify ascii_lib None = u ''untitled''"
proof -
  have e: "slugify ascii_lib (Some (u ''Hello World'')) = u ''hello-world''"
    by (simp add: slug_eval)
  have "hd (u ''hello-world'') \<in> set (u ''hello-world'')"
    by (simp add: u_def)
  then show ?thesis
    using slugify_total [of ascii_lib "Some (u ''Hello World'')"] unfolding e by blast
qed

text \<open>
  C1, as the claim states it, fails: an underscore in the input stays in the slug, and
  the underscore is outside \<^verbatim>\<open>[a-z0-9-]\<close>.
\<close>

theorem slugify_underscore_counterexample:
  "slugify ascii_lib (Some (u ''a_b'')) = u ''a_b'' \<and>
   \<not> list_all claimed_slug_char (slugify ascii_lib (Some (u ''a_b'')))"
  by (simp add: slug_eval claimed_slug_char_def)

subsection \<open>Idempotence\<close>

lemma hyphenate_head:
  "(case y of [] \<Rightarrow> True | d # _ \<Rightarrow> \<not> is_sep lib d) \<Longrightarrow>
   (case hyphenate lib y of [] \<Rightarrow> True | d # _ \<Rightarrow> \<not> is_sep lib d)"
  by (cases y) auto

lemma dropWhile_head: "(case dropWhile P xs of [] \<Rightarrow> True | d # _ \<Rightarrow> \<not> P d)"
  by (induction xs) auto

lemma dropWhile_self: "(case xs of [] \<Rightarrow> True | d # _ \<Rightarrow> \<not> P d) \<Longrightarrow> dropWhile P xs = xs"
  by (cases xs) auto

lemma tidy_hyphenate: "tidy lib (hyphenate lib s)"
proof (induction lib s rule: hyphenate.induct)
  case (1 lib)
  then show ?case by simp
next
  case (2 lib c cs)
  show ?case
  proof (cases "is_sep lib c")
    case True
    have "case hyphenate lib (dropWhile (is_sep lib) cs) of
            [] \<Rightarrow> True | d # _ \<Rightarrow> \<not> is_sep lib d"
      by (rule hyphenate_head) (rule dropWhile_head)
    with True 2 show ?thesis by simp
  next
    case False
    with 2 show ?thesis by simp
  qed
qed

lemma hyphenate_tidy: "tidy lib s \<Longrightarrow> hyphenate lib s = s"
  by (induction s) (auto simp: dropWhile_self)

lemma tidy_append2: "tidy lib (a @ b) \<Longrightarrow> tidy lib b"
  by (induction a) auto

lemma tidy_append1: "tidy lib (a @ b) \<Longrightarrow> tidy lib a"
proof (induction a)
  case Nil
  then show ?case by simp
next
  case (Cons c a)
  then show ?case by (cases a) auto
qed

lemma tidy_strip:
  assumes "tidy lib s"
  shows "tidy lib (strip_hyphens s)"
proof -
  let ?p = "\<lambda>c::nat. c = 45"
  let ?y = "dropWhile ?p s"
  have "tidy lib (takeWhile ?p s @ ?y)" using assms by simp
  then have y: "tidy lib ?y" by (rule tidy_append2)
  have "rev (dropWhile ?p (rev ?y)) @ rev (takeWhile ?p (rev ?y)) = ?y"
    by (metis rev_append rev_rev_ident takeWhile_dropWhile_id)
  with y have "tidy lib (rev (dropWhile ?p (rev ?y)) @ rev (takeWhile ?p (rev ?y)))"
    by simp
  then show ?thesis unfolding strip_hyphens_def by (rule tidy_append1)
qed

lemma strip_strip: "strip_hyphens (strip_hyphens s) = strip_hyphens s"
proof -
  let ?p = "\<lambda>c::nat. c = 45"
  let ?y = "dropWhile ?p s"
  let ?z = "dropWhile ?p (rev ?y)"
  have z: "case ?z of [] \<Rightarrow> True | d # _ \<Rightarrow> \<not> ?p d" by (rule dropWhile_head)
  have y: "case ?y of [] \<Rightarrow> True | d # _ \<Rightarrow> \<not> ?p d" by (rule dropWhile_head)
  have "case rev ?z of [] \<Rightarrow> True | d # _ \<Rightarrow> \<not> ?p d"
  proof (cases ?y)
    case Nil
    show ?thesis unfolding Nil by simp
  next
    case (Cons a as)
    with y have a: "a \<noteq> 45" by simp
    from Cons have "rev ?y = rev as @ [a]" by simp
    then have "?z = dropWhile ?p (rev as) @ [a]" using a by (simp add: dropWhile_append)
    then have "rev ?z = a # rev (dropWhile ?p (rev as))" by simp
    then show ?thesis using a by simp
  qed
  then have "dropWhile ?p (rev ?z) = rev ?z" by (rule dropWhile_self)
  moreover have "dropWhile ?p ?z = ?z" using z by (rule dropWhile_self)
  ultimately show ?thesis unfolding strip_hyphens_def by simp
qed

lemma slug_chars_ascii: "\<forall>c\<in>set r. slug_char c \<Longrightarrow> encode_ascii_ignore r = r"
  by (auto simp: encode_ascii_ignore_def slug_char_def intro!: filter_True)

lemma slug_chars_lower: "\<forall>c\<in>set r. slug_char c \<Longrightarrow> lower r = r"
  by (auto simp: lower_def lower_char_def slug_char_def intro!: map_idI)

lemma slug_chars_kept: "\<forall>c\<in>set r. slug_char c \<Longrightarrow> drop_special lib r = r"
  by (auto simp: drop_special_def re_word_def ascii_word_def slug_char_def intro!: filter_True)

lemma untitled_tidy:
  "tidy lib (u ''untitled'')" "strip_hyphens (u ''untitled'') = u ''untitled''"
  by (simp_all add: u_def is_sep_def re_space_def ascii_space_def strip_hyphens_def)

lemma slugify_tidy:
  "tidy lib (slugify lib x) \<and> strip_hyphens (slugify lib x) = slugify lib x"
  by (auto simp: slugify_def Let_def untitled_tidy tidy_strip tidy_hyphenate strip_strip
      split: option.splits)

text \<open>
  C10. \<open>slugify\<close> applied to its own output returns that output, for every input,
  when the normalisation table leaves ASCII text as it is (which Unicode's NFKD
  does: no ASCII character has a decomposition).
\<close>

theorem slugify_idempotent:
  assumes "\<forall>s. (\<forall>c\<in>set s. c < 128) \<longrightarrow> normalize_NFKD lib s = s"
  shows "slugify lib (Some (slugify lib x)) = slugify lib x"
proof -
  let ?r = "slugify lib x"
  have ch: "\<forall>c\<in>set ?r. slug_char c" by (rule slugify_chars)
  then have "\<forall>c\<in>set ?r. c < 128" by (auto simp: slug_char_def)
  with assms have n: "normalize_NFKD lib ?r = ?r" by blast
  have ne: "?r \<noteq> []" by (rule slugify_nonempty)
  have t: "hyphenate lib ?r = ?r" using slugify_tidy by (blast intro: hyphenate_tidy)
  have s: "strip_hyphens ?r = ?r" using slugify_tidy by blast
  have "slugify lib (Some ?r) =
      (let t1 = normalize_NFKD lib ?r;
           t2 = encode_ascii_ignore t1;
           t3 = drop_special lib (lower t2);
           t4 = hyphenate lib t3;
           result = strip_hyphens t4
       in if result = [] then u ''untitled'' else result)"
    using ne unfolding slugify_def by simp
  also have "\<dots> = ?r"
    using ne n t s slug_chars_ascii [OF ch] slug_chars_lower [OF ch]
      slug_chars_kept [OF ch, of lib]
    by (simp add: Let_def)
  finally show ?thesis .
qed

theorem slugify_idempotent_witness:
  "slugify ascii_lib (Some (slugify ascii_lib (Some (u ''Hello  World!'')))) =
     slugify ascii_lib (Some (u ''Hello  World!'')) \<and>
   slugify ascii_lib (Some (u ''Hello  World!'')) = u ''hello-world''"
proof -
  have h: "\<forall>s. (\<forall>c\<in>set s. c < 128) \<longrightarrow> normalize_NFKD ascii_lib s = s"
    by (simp add: ascii_lib_def)
  have e: "slugify ascii_lib (Some (u ''Hello  World!'')) = u ''hello-world''"
    by (simp add: slug_eval)
  show ?thesis
    using e slugify_idempotent [OF h, of "Some (u ''Hello  World!'')"] by simp
qed


section \<open>Properties of extract\_yaml\_frontmatter\<close>



section \<open>Properties of convert\_links\<close>

lemmas link_eval =
  convert_links_def conv0_def u_def match_wiki_def match_embed_def startswith_def
  replace_link_org_def replace_link_md_def split_link_def Let_def

text \<open>
  C4 does not hold of the code. The wiki-link substitution runs first and rewrites
  the brackets of an embed as a link, after which the embed pattern matches nothing:
  \<^verbatim>\<open>![[image.png]]\<close> does not become \<^verbatim>\<open>[[file:image.png]]\<close>.
\<close>

theorem embed_rewritten_as_link:
  "convert_links conv0 (u ''![[image.png]]'') True = u ''![[file:image.png.org][image.png]]''"
  by (simp add: link_eval)

lemma match_wiki_not_open: "\<not> startswith s [91, 91] \<Longrightarrow> match_wiki s = None"
  by (auto simp: match_wiki_def startswith_def split: list.splits)

lemma sub_wiki_plain: "plain_ok p \<Longrightarrow> sub_wiki f (p @ X) = p @ sub_wiki f X"
proof (induction p rule: plain_ok.induct)
  case 1
  then show ?case by simp
next
  case (2 c)
  then have "match_wiki (c # X) = None"
    by (intro match_wiki_not_open) (simp add: startswith_def)
  then show ?case by simp
next
  case (3 c d r)
  then have "match_wiki (c # d # r @ X) = None"
    by (intro match_wiki_not_open) (auto simp: startswith_def)
  with 3 show ?case by simp
qed

lemma takeWhile_stop: "c \<notin> set g \<Longrightarrow> takeWhile (\<lambda>x. x \<noteq> c) (g @ c # r) = g"
  by (induction g) auto

lemma dropWhile_stop: "c \<notin> set g \<Longrightarrow> dropWhile (\<lambda>x. x \<noteq> c) (g @ c # r) = c # r"
  by (induction g) auto

lemma match_wiki_link:
  assumes "g \<noteq> []" "93 \<notin> set g"
  shows "match_wiki (91 # 91 # g @ 93 # 93 # X) = Some (g, X)"
proof -
  have "takeWhile (\<lambda>c. c \<noteq> 93) (g @ 93 # 93 # X) = g"
    using assms(2) by (rule takeWhile_stop)
  moreover have "dropWhile (\<lambda>c. c \<noteq> 93) (g @ 93 # 93 # X) = 93 # 93 # X"
    using assms(2) by (rule dropWhile_stop)
  ultimately show ?thesis using assms(1) by (simp add: match_wiki_def startswith_def)
qed

lemma sub_wiki_link:
  assumes "g \<noteq> []" "93 \<notin> set g"
  shows "sub_wiki f (91 # 91 # g @ 93 # 93 # X) = f g @ sub_wiki f X"
  using match_wiki_link [OF assms] by simp

lemma resolve_link_resolved: "resolve_link fm t = resolved_stem fm t"
  by (induction fm) (auto simp: resolved_stem_def)

lemma split_link_plain: "124 \<notin> set t \<Longrightarrow> split_link t = (t, t)"
  by (simp add: split_link_def)

lemma split_link_bar: "124 \<notin> set t \<Longrightarrow> split_link (t @ 124 # d) = (t, d)"
  by (simp add: split_link_def takeWhile_stop dropWhile_stop)

lemma u_open: "u ''[['' = [91, 91]" and u_close: "u '']]'' = [93, 93]" and u_bar: "u ''|'' = [124]"
  by (simp_all add: u_def)

lemma sub_wiki_segment:
  assumes "segment_ok seg"
  shows "sub_wiki (replace_link_org fm) (source_of seg @ X) = org_of fm seg @ sub_wiki (replace_link_org fm) X"
proof (cases seg)
  case (Plain p)
  with assms show ?thesis by (simp add: sub_wiki_plain)
next
  case (Wiki t d)
  show ?thesis
  proof (cases d)
    case None
    with Wiki assms have t: "t \<noteq> []" "93 \<notin> set t" "124 \<notin> set t" by (auto simp: name_ok_def)
    have "sub_wiki (replace_link_org fm) (91 # 91 # t @ 93 # 93 # X)
        = replace_link_org fm t @ sub_wiki (replace_link_org fm) X"
      using t by (intro sub_wiki_link) auto
    then show ?thesis using Wiki None t
      by (simp add: u_open u_close replace_link_org_def split_link_plain resolve_link_resolved)
  next
    case (Some x)
    with Wiki assms have t: "93 \<notin> set t" "124 \<notin> set t" "93 \<notin> set x" by (auto simp: name_ok_def)
    have "sub_wiki (replace_link_org fm) (91 # 91 # (t @ 124 # x) @ 93 # 93 # X)
        = replace_link_org fm (t @ 124 # x) @ sub_wiki (replace_link_org fm) X"
      using t by (intro sub_wiki_link) auto
    then show ?thesis using Wiki Some t
      by (simp add: u_open u_close u_bar replace_link_org_def split_link_bar resolve_link_resolved)
  qed
qed

lemma sub_wiki_doc:
  "\<forall>seg\<in>set doc. segment_ok seg \<Longrightarrow>
   sub_wiki (replace_link_org fm) (concat (map source_of doc)) = concat (map (org_of fm) doc)"
proof (induction doc)
  case Nil
  then show ?case by simp
next
  case (Cons seg doc)
  then show ?case using sub_wiki_segment [of seg fm "concat (map source_of doc)"] by simp
qed

lemma sub_embed_other: "c \<noteq> 33 \<Longrightarrow> sub_embed (c # Y) = c # sub_embed Y"
  by (simp add: match_embed_def)

lemma sub_embed_bang: "match_wiki Y = None \<Longrightarrow> sub_embed (c # Y) = c # sub_embed Y"
  by (simp add: match_embed_def)

lemma sub_embed_no_open:
  "91 \<notin> set A \<Longrightarrow> \<not> startswith Y [91, 91] \<Longrightarrow> sub_embed (A @ Y) = A @ sub_embed Y"
proof (induction A)
  case Nil
  then show ?case by simp
next
  case (Cons a A)
  then have "\<not> startswith (A @ Y) [91, 91]"
    by (cases A) (auto simp: startswith_def)
  then have "match_wiki (A @ Y) = None" by (rule match_wiki_not_open)
  then have "sub_embed (a # A @ Y) = a # sub_embed (A @ Y)" by (rule sub_embed_bang)
  with Cons show ?case by simp
qed

lemma sub_embed_plain:
  "plain_ok p \<Longrightarrow> match_wiki X = None \<Longrightarrow>
   sub_embed (p @ X) = p @ sub_embed X \<and> match_wiki (p @ X) = None"
proof (induction p rule: plain_ok.induct)
  case 1
  then show ?case by simp
next
  case (2 c)
  then have "match_wiki (c # X) = None"
    by (intro match_wiki_not_open) (simp add: startswith_def)
  moreover have "sub_embed (c # X) = c # sub_embed X"
    using 2(2) by (rule sub_embed_bang)
  ultimately show ?case by simp
next
  case (3 c d r)
  then have ih: "sub_embed ((d # r) @ X) = (d # r) @ sub_embed X" "match_wiki ((d # r) @ X) = None"
    by auto
  from 3 have "match_wiki (c # d # r @ X) = None"
    by (intro match_wiki_not_open) (auto simp: startswith_def)
  moreover have "sub_embed (c # (d # r) @ X) = c # sub_embed ((d # r) @ X)"
    using ih(2) by (rule sub_embed_bang)
  ultimately show ?case using ih by simp
qed

lemma match_wiki_single_close:
  "93 \<notin> set G \<Longrightarrow> match_wiki (91 # 91 # G @ 93 # 91 # R) = None"
  by (simp add: match_wiki_def dropWhile_stop startswith_def)

lemma u_file: "u ''[[file:'' = 91 # 91 # u ''file:''" and u_org: "u ''.org]['' = u ''.org]'' @ [91]"
  by (simp_all add: u_def)

lemma sub_embed_block:
  assumes "name_ok L" "name_ok D"
  defines "B \<equiv> u ''[[file:'' @ L @ u ''.org]['' @ D @ u '']]''"
  shows "sub_embed (B @ X) = B @ sub_embed X \<and> match_wiki (B @ X) = None"
proof -
  let ?A1 = "u ''file:'' @ L @ u ''.org]''"
  let ?Y2 = "93 # 93 # X"
  let ?Y1 = "91 # D @ ?Y2"
  have B: "B @ X = 91 # 91 # ?A1 @ ?Y1"
    by (simp add: B_def u_file u_org u_close)
  have a1: "91 \<notin> set ?A1" using assms(1) by (simp add: name_ok_def u_def)
  have y1: "\<not> startswith ?Y1 [91, 91]"
    using assms(2) by (cases D) (auto simp: startswith_def name_ok_def)
  have d: "91 \<notin> set D" using assms(2) by (simp add: name_ok_def)
  have y2: "\<not> startswith ?Y2 [91, 91]" by (simp add: startswith_def)
  have "sub_embed (B @ X) = 91 # 91 # sub_embed (?A1 @ ?Y1)"
    unfolding B by (simp add: sub_embed_other del: sub_embed.simps)
  also have "sub_embed (?A1 @ ?Y1) = ?A1 @ sub_embed ?Y1"
    using a1 y1 by (rule sub_embed_no_open)
  also have "sub_embed ?Y1 = 91 # sub_embed (D @ ?Y2)"
    by (simp add: sub_embed_other del: sub_embed.simps)
  also have "sub_embed (D @ ?Y2) = D @ sub_embed ?Y2"
    using d y2 by (rule sub_embed_no_open)
  also have "sub_embed ?Y2 = 93 # 93 # sub_embed X"
    by (simp add: sub_embed_other del: sub_embed.simps)
  finally have one: "sub_embed (B @ X) = B @ sub_embed X"
    by (simp add: B_def u_file u_org u_close)
  have c93: "93 \<notin> set (u ''file:'' @ L @ u ''.org'')"
    using assms(1) by (simp add: name_ok_def u_def)
  have "B @ X = 91 # 91 # (u ''file:'' @ L @ u ''.org'') @ 93 # 91 # (D @ ?Y2)"
    by (simp add: B_def u_def)
  moreover have "match_wiki (91 # 91 # (u ''file:'' @ L @ u ''.org'') @ 93 # 91 # (D @ ?Y2)) = None"
    using c93 by (rule match_wiki_single_close)
  ultimately have "match_wiki (B @ X) = None" by simp
  with one show ?thesis by simp
qed

lemma resolved_stem_ok: "stems_ok fm \<Longrightarrow> name_ok t \<Longrightarrow> name_ok (resolved_stem fm t)"
proof (induction fm)
  case Nil
  then show ?case by (simp add: resolved_stem_def)
next
  case (Cons e fm)
  then show ?case by (cases e) (auto simp: resolved_stem_def stems_ok_def)
qed

lemma sub_embed_doc:
  "\<forall>seg\<in>set doc. segment_ok seg \<Longrightarrow> stems_ok fm \<Longrightarrow>
   sub_embed (concat (map (org_of fm) doc)) = concat (map (org_of fm) doc) \<and>
   match_wiki (concat (map (org_of fm) doc)) = None"
proof (induction doc)
  case Nil
  then show ?case by (simp add: match_wiki_def)
next
  case (Cons seg doc)
  let ?X = "concat (map (org_of fm) doc)"
  from Cons have ih: "sub_embed ?X = ?X" "match_wiki ?X = None" by auto
  have "sub_embed (org_of fm seg @ ?X) = org_of fm seg @ sub_embed ?X \<and>
        match_wiki (org_of fm seg @ ?X) = None"
  proof (cases seg)
    case (Plain p)
    with Cons.prems have "plain_ok p" by simp
    then show ?thesis using ih(2) Plain by (simp add: sub_embed_plain)
  next
    case (Wiki t d)
    with Cons.prems have t: "name_ok t" by (cases d) auto
    then have L: "name_ok (resolved_stem fm t)" using Cons.prems(2) by (intro resolved_stem_ok)
    have D: "name_ok (case d of None \<Rightarrow> t | Some x \<Rightarrow> x)"
      using Wiki Cons.prems(1) by (cases d) auto
    show ?thesis using sub_embed_block [OF L D, of ?X] Wiki by simp
  qed
  with ih show ?case by simp
qed

text \<open>
  C3. For org output, \<open>convert_links\<close> maps a body made of plain text and wiki-links to
  the same plain text with every link \<^verbatim>\<open>[[target]]\<close> or \<^verbatim>\<open>[[target|display]]\<close>
  replaced by \<^verbatim>\<open>[[file:<resolved>.org][display]]\<close>: the display is the target for
  the one-part form, and the resolved stem is the one recorded in the file mapping
  for the first converted note whose original stem is the target, the target itself
  when there is none.
\<close>

theorem wiki_links_rewritten:
  assumes "\<forall>seg\<in>set doc. segment_ok seg" and "stems_ok (file_mapping conv)"
  shows "convert_links conv (concat (map source_of doc)) True =
         concat (map (org_of (file_mapping conv)) doc)"
  using assms by (simp add: convert_links_def sub_wiki_doc sub_embed_doc)

lemma evs: "stem (Path True [u ''vault'', u ''another note.md'']) = u ''another note''"
   "stem (path_of_str (u ''20240115T103000--another-note.org'')) = u ''20240115T103000--another-note''"
  by (simp_all add: stem_def name_of_def rfind_def u_def path_of_str_def Let_def)

theorem wiki_links_rewritten_witness:
  "convert_links conv1 (u ''Check [[my-note]] and [[another note|description]]'') True =
   u ''Check [[file:my-note.org][my-note]] and [[file:20240115T103000--another-note.org][description]]''"
proof -
  let ?doc = "[Plain (u ''Check ''), Wiki (u ''my-note'') None, Plain (u '' and ''),
               Wiki (u ''another note'') (Some (u ''description''))]"
  have h1: "\<forall>seg\<in>set ?doc. segment_ok seg"
    by (simp add: name_ok_def u_def)
  have h2: "stems_ok (file_mapping conv1)"
    by (simp add: stems_ok_def conv1_def evs) (simp add: name_ok_def u_def)
  have "convert_links conv1 (concat (map source_of ?doc)) True =
         concat (map (org_of (file_mapping conv1)) ?doc)"
    using h1 h2 by (rule wiki_links_rewritten)
  moreover have "concat (map source_of ?doc) = u ''Check [[my-note]] and [[another note|description]]''"
    by (simp add: u_def)
  moreover have "concat (map (org_of (file_mapping conv1)) ?doc) =
     u ''Check [[file:my-note.org][my-note]] and [[file:20240115T103000--another-note.org][description]]''"
    by (simp add: conv1_def resolved_stem_def evs) (simp add: u_def)
  ultimately show ?thesis by simp
qed

section \<open>Properties of generate\_denote\_filename\<close>

text \<open>
  C5 does not hold of the code. The heading is tried whenever the title found so far
  equals the stem of the file name, which is also the case when the metadata give
  that very text as the title: for the note \<^verbatim>\<open>notes.md\<close> with the metadata title
  \<^verbatim>\<open>notes\<close> and the body \<^verbatim>\<open># Other heading\<close>, the title is \<^verbatim>\<open>Other heading\<close>.
\<close>

theorem title_overridden_by_heading:
  "generate_denote_filename ascii_lib conv0 (Some 0) (Path True [u ''vault'', u ''notes.md''])
      (Some [(u ''title'', YScalar (SStr (u ''notes'')))]) (u ''# Other heading'')
   = Inr (u ''20240115T103000--other-heading.org'', u ''Other heading'', [], 0)"
  by code_simp


lemma meta_get_past_tags:
  "meta_get (Some ((u ''tags'', v) # rest)) (u ''title'') = meta_get (Some rest) (u ''title'')"
  "meta_get (Some ((u ''tags'', v) # rest)) (u ''aliases'') = meta_get (Some rest) (u ''aliases'')"
  "meta_get (Some ((u ''tags'', v) # rest)) (u ''created'') = meta_get (Some rest) (u ''created'')"
  by (simp_all add: meta_get_def u_def)

lemma string_tags_same:
  "generate_denote_filename lib conv file_mtime original_path
       (Some ((u ''tags'', YScalar (SStr s)) # rest)) content
   = generate_denote_filename lib conv file_mtime original_path
       (Some ((u ''tags'', YList [SStr s]) # rest)) content"
proof -
  have t: "tags_of lib (Some ((u ''tags'', YScalar (SStr s)) # rest)) content
         = tags_of lib (Some ((u ''tags'', YList [SStr s]) # rest)) content"
    by (simp add: tags_of_def metadata_tags_def meta_get_def)
  have ti: "title_of lib original_path (Some ((u ''tags'', YScalar (SStr s)) # rest)) content
         = title_of lib original_path (Some ((u ''tags'', YList [SStr s]) # rest)) content"
    unfolding title_of_def metadata_title_def meta_get_past_tags ..
  have c: "\<And>mt. created_time_of lib mt (Some ((u ''tags'', YScalar (SStr s)) # rest))
         = created_time_of lib mt (Some ((u ''tags'', YList [SStr s]) # rest))"
    unfolding created_time_of_def meta_get_past_tags ..
  show ?thesis
    unfolding generate_denote_filename_def t ti c ..
qed

text \<open>
  C6. Whenever \<open>generate_denote_filename\<close> returns, the file name is the time stamp,
  \<^verbatim>\<open>--\<close>, the slug of the title, then \<^verbatim>\<open>__\<close> and the slugs of the tags joined by
  \<^verbatim>\<open>_\<close> when there is a tag and nothing when there is none, then the extension. The
  tags are the non-empty metadata and inline tags, each once, given that turning a
  set into a list keeps the elements and repeats none. A \<^verbatim>\<open>tags\<close> field that is the
  text \<open>s\<close> gives the same result as the list with the one element \<open>s\<close>.
\<close>

theorem denote_filename_shape:
  assumes "\<forall>xs. set (list_of_set lib xs) = set xs \<and> distinct (list_of_set lib xs)"
      and "generate_denote_filename lib conv file_mtime original_path metadata content
             = Inr (filename, title, tags, created_time)"
  shows "filename =
           strftime_stamp lib created_time @ u ''--'' @ slugify lib (Some title) @
           (if tags = [] then []
            else u ''__'' @ join (u ''_'') (map (\<lambda>tag. slugify lib (Some tag)) tags)) @
           (if output_format conv = u ''org'' then u ''.org'' else u ''.md'') \<and>
         distinct tags \<and>
         set tags = {tag. (tag \<in> set (metadata_tags metadata) \<or> tag \<in> set (findall_tags lib content))
                          \<and> tag \<noteq> []} \<and>
         generate_denote_filename lib conv file_mtime original_path
             (Some ((u ''tags'', YScalar (SStr s)) # rest)) content
           = generate_denote_filename lib conv file_mtime original_path
             (Some ((u ''tags'', YList [SStr s]) # rest)) content"
proof -
  from assms(2) obtain mt where mt: "file_mtime = Some mt" 
    by (cases file_mtime) (auto simp: generate_denote_filename_def)
  from assms(2) have tg: "tags = tags_of lib metadata content"
    by (auto simp: generate_denote_filename_def mt Let_def)
  have 1: "filename =
           strftime_stamp lib created_time @ u ''--'' @ slugify lib (Some title) @
           (if tags = [] then []
            else u ''__'' @ join (u ''_'') (map (\<lambda>tag. slugify lib (Some tag)) tags)) @
           (if output_format conv = u ''org'' then u ''.org'' else u ''.md'')"
    using assms(2) by (auto simp: generate_denote_filename_def mt Let_def)
  have 2: "distinct tags" using assms(1) by (simp add: tg tags_of_def)
  have 3: "set tags = {tag. (tag \<in> set (metadata_tags metadata) \<or> tag \<in> set (findall_tags lib content))
                          \<and> tag \<noteq> []}"
    using assms(1) by (auto simp: tg tags_of_def)
  show ?thesis by (rule conjI[OF 1 conjI[OF 2 conjI[OF 3 string_tags_same]]])
qed

theorem denote_filename_shape_witness:
  "generate_denote_filename ascii_lib conv0 (Some 0) test_note (Some test_metadata) []
     = Inr (u ''20240115T103000--test-note__tag1_tag2.org'', u ''Test Note'',
            [u ''tag1'', u ''tag2''], 0) \<and>
   u ''20240115T103000--test-note__tag1_tag2.org'' =
     strftime_stamp ascii_lib 0 @ u ''--'' @ slugify ascii_lib (Some (u ''Test Note'')) @
     u ''__'' @ join (u ''_'') (map (\<lambda>tag. slugify ascii_lib (Some tag)) [u ''tag1'', u ''tag2'']) @
     u ''.org''"
proof -
  have run: "generate_denote_filename ascii_lib conv0 (Some 0) test_note (Some test_metadata) []
     = Inr (u ''20240115T103000--test-note__tag1_tag2.org'', u ''Test Note'',
            [u ''tag1'', u ''tag2''], 0)"
    by code_simp
  have los: "\<forall>xs. set (list_of_set ascii_lib xs) = set xs \<and> distinct (list_of_set ascii_lib xs)"
    by (simp add: ascii_lib_def)
  have fmt: "output_format conv0 = u ''org''" by (simp add: conv0_def)
  have "u ''20240115T103000--test-note__tag1_tag2.org'' =
           strftime_stamp ascii_lib 0 @ u ''--'' @ slugify ascii_lib (Some (u ''Test Note'')) @
           (if [u ''tag1'', u ''tag2''] = [] then []
            else u ''__'' @ join (u ''_'') (map (\<lambda>tag. slugify ascii_lib (Some tag)) [u ''tag1'', u ''tag2''])) @
           (if output_format conv0 = u ''org'' then u ''.org'' else u ''.md'')"
    using denote_filename_shape[OF los run] by (rule conjunct1)
  then have "u ''20240115T103000--test-note__tag1_tag2.org'' =
     strftime_stamp ascii_lib 0 @ u ''--'' @ slugify ascii_lib (Some (u ''Test Note'')) @
     u ''__'' @ join (u ''_'') (map (\<lambda>tag. slugify ascii_lib (Some tag)) [u ''tag1'', u ''tag2'']) @
     u ''.org''"
    unfolding fmt by simp
  with run show ?thesis by (rule conjI)
qed

section \<open>Properties of copy\_asset\<close>








section \<open>Properties of convert\_directory\<close>












text \<open>
  C2 does not hold of the code. For the note \<^verbatim>\<open>projects/my-project.md\<close> with the
  body \<^verbatim>\<open># My Project\<close> and \<^verbatim>\<open>add_folder_tags\<close>, the loop computes the metadata
  with the tag \<^verbatim>\<open>projects\<close>, and the conversion, which reads the file again, is done
  with no tag: the file name has no tag segment and the rendering receives the empty
  tag list.
\<close>

theorem folder_tags_discarded:
  "(case convert_directory ascii_lib env conv_ignore fs_projects vault out_dir False True of
      (r, reports, conv', fs') \<Rightarrow> (r, reports, written fs'))
   = (Inr [(project_note, Path True [u ''out'', u ''20240115T103000--my-project.org''])],
      [Converted project_note],
      [(Path True [u ''out'', u ''20240115T103000--my-project.org''],
        convert_to_org env
          (conv_ignore\<lparr>file_mapping := [(project_note, u ''20240115T103000--my-project.org'')]\<rparr>)
          (u ''# My Project'') (Some []) (u ''My Project'') [])]) \<and>
   folder_tag_metadata ascii_lib fs_projects project_note
       (Path False [u ''projects'', u ''my-project.md''])
   = Inr [(u ''tags'', YList [SStr (u ''projects'')])]"
  by code_simp

end
